theory Spec2Isabelle
  imports Main "HOL-Library.Multiset" "HOL-Library.Sublist"
begin

section \<open>Constants of main.go\<close>

definition VERSION :: string where
  "VERSION = ''0.0.1''"

definition REPOSITORY :: string where
  "REPOSITORY = ''https://github.com/coop-sapporo/get-the-latest-artifact-on-github-action''"

definition MAX_NUMBER_PER_PAGE :: int where
  "MAX_NUMBER_PER_PAGE = 100"

section \<open>Values exchanged with the libraries\<close>

text \<open>A non-nil Go \<^verbatim>\<open>error\<close> is represented by its message, which is what the
  verb \<^verbatim>\<open>%+v\<close> prints for it.\<close>

type_synonym error = string

text \<open>\<^verbatim>\<open>github.Artifact\<close>: every field is a pointer and may be absent. A creation
  timestamp is an instant, counted from Go's zero \<^verbatim>\<open>time.Time\<close>.\<close>

record Artifact =
  ID :: "int option"
  Name :: "string option"
  CreatedAt :: "int option"

definition GetID :: "Artifact \<Rightarrow> int" where
  "GetID a = (case ID a of None \<Rightarrow> 0 | Some i \<Rightarrow> i)"

definition GetCreatedAt :: "Artifact \<Rightarrow> int" where
  "GetCreatedAt a = (case CreatedAt a of None \<Rightarrow> 0 | Some t \<Rightarrow> t)"

text \<open>An \<^verbatim>\<open>io.Reader\<close>: the bytes it delivers, and the error that ends the
  stream when it does not end with a clean EOF.\<close>

record reader =
  data :: string
  read_error :: "error option"

text \<open>\<^verbatim>\<open>zip.File\<close>: the stored name and what \<^verbatim>\<open>file.Open()\<close> returns.\<close>

record zip_File =
  file_Name :: string
  file_Open :: "error + reader"

section \<open>The surroundings of a run\<close>

text \<open>Everything main.go takes from outside itself: flags, environment and build
  variables, the answers of the remote API, the operating system, and the library
  routines \<^verbatim>\<open>zip.OpenReader\<close> and \<^verbatim>\<open>sort.Slice\<close>.

  \<^item> \<open>owner\<close>, \<open>repo\<close>: the two flag variables once \<^verbatim>\<open>flag.Parse()\<close> has returned.
  \<^item> \<open>ListArtifacts\<close>: the answers to the successive listing calls, in the order the
    calls are made: an error, or the page's artifacts with \<^verbatim>\<open>resp.NextPage\<close>. When
    the list is used up the remote does not answer any more and the call blocks.
  \<^item> \<open>DownloadArtifact\<close>: for owner, repository and artifact id, an error or the
    download URL. \<open>http_Get\<close>: for a URL, an error or the body of the response; the
    program does not look at the status of the response.
  \<^item> \<open>CreateTemp\<close>: an error, or the random part \<^verbatim>\<open>os.CreateTemp\<close> puts in place of
    the star of its pattern; \<open>TempDir\<close> is \<^verbatim>\<open>os.TempDir()\<close>.
  \<^item> \<open>write_limit\<close>: for a path, \<open>Some (n, e)\<close> when writing to that file fails with
    \<open>e\<close> once \<open>n\<close> bytes have been written.
  \<^item> \<open>zip_OpenReader\<close>: for the bytes of a file, an error or the entries of the
    archive they encode.
  \<^item> \<open>dirs\<close>: the paths that name an existing directory; \<open>files0\<close>: the regular files
    present when the run starts, by path.
  \<^item> \<open>sort_Slice\<close>: the sorting routine, given the comparison and the slice.\<close>

record env =
  GITHUB_TOKEN :: string
  owner :: string
  repo :: string
  REVISION :: string
  RELEASE_FLAG :: string
  ListArtifacts :: "(error + Artifact list \<times> int) list"
  DownloadArtifact :: "string \<Rightarrow> string \<Rightarrow> int \<Rightarrow> error + string"
  http_Get :: "string \<Rightarrow> error + reader"
  TempDir :: string
  CreateTemp :: "error + string"
  write_limit :: "string \<Rightarrow> (nat \<times> error) option"
  zip_OpenReader :: "string \<Rightarrow> error + zip_File list"
  dirs :: "string set"
  files0 :: "string \<rightharpoonup> string"
  sort_Slice :: "(Artifact \<Rightarrow> Artifact \<Rightarrow> bool) \<Rightarrow> Artifact list \<Rightarrow> Artifact list"

section \<open>The state of a run\<close>

datatype written = Fprintln string | PrintDefaults | Log_Printf string

datatype request =
    ListArtifacts_request string string string int int
  | DownloadArtifact_request string string string int bool
  | Get_request string

datatype handle = Body | File string | ZipReader | EntryReader string

datatype deferred_call =
    Defer_Body_Close
  | Defer_temp_Close_RemoveAll string
  | Defer_zipfile_Close
  | Defer_src_Close string
  | Defer_dst_Close string

text \<open>How the process ends: \<^verbatim>\<open>os.Exit\<close> or the return of \<^verbatim>\<open>main\<close> with a status, a
  run-time panic (the Go run time prints the fault and its stack and exits with status
  2), or never (blocked in a call).\<close>

datatype outcome = Exit int | Panic string | Hang

text \<open>\<open>stderr\<close>: what was written to the error stream, in order. \<open>requests\<close>: the
  network requests issued, in order. \<open>files\<close>: the regular files on disk. \<open>handles\<close>:
  the readers and files that are open. \<open>deferred\<close>: the calls registered with
  \<^verbatim>\<open>defer\<close>, the latest first.\<close>

record state =
  stderr :: "written list"
  requests :: "request list"
  files :: "string \<rightharpoonup> string"
  handles :: "handle list"
  deferred :: "deferred_call list"

definition init_state :: "env \<Rightarrow> state" where
  "init_state w = \<lparr>stderr = [], requests = [], files = files0 w, handles = [], deferred = []\<rparr>"

definition Fprintln_Stderr :: "string \<Rightarrow> state \<Rightarrow> state" where
  "Fprintln_Stderr line st = st\<lparr>stderr := stderr st @ [Fprintln line]\<rparr>"

definition flag_PrintDefaults :: "state \<Rightarrow> state" where
  "flag_PrintDefaults st = st\<lparr>stderr := stderr st @ [PrintDefaults]\<rparr>"

definition os_Exit :: "int \<Rightarrow> state \<Rightarrow> state \<times> outcome" where
  "os_Exit code st = (st, Exit code)"

text \<open>\<^verbatim>\<open>log.Fatalf\<close> prints through the logger (which puts the date and time before
  the message) and calls \<^verbatim>\<open>os.Exit(1)\<close>: the process ends there, and no deferred call
  is run.\<close>

definition log_Fatalf :: "string \<Rightarrow> state \<Rightarrow> state \<times> outcome" where
  "log_Fatalf msg st = os_Exit 1 (st\<lparr>stderr := stderr st @ [Log_Printf msg]\<rparr>)"

definition issue :: "request \<Rightarrow> state \<Rightarrow> state" where
  "issue r st = st\<lparr>requests := requests st @ [r]\<rparr>"

definition open_handle :: "handle \<Rightarrow> state \<Rightarrow> state" where
  "open_handle h st = st\<lparr>handles := h # handles st\<rparr>"

text \<open>Closing what is already closed returns an error that the program ignores.\<close>

definition Close :: "handle \<Rightarrow> state \<Rightarrow> state" where
  "Close h st = st\<lparr>handles := remove1 h (handles st)\<rparr>"

definition go_defer :: "deferred_call \<Rightarrow> state \<Rightarrow> state" where
  "go_defer d st = st\<lparr>deferred := d # deferred st\<rparr>"

definition os_RemoveAll :: "string \<Rightarrow> state \<Rightarrow> state" where
  "os_RemoveAll name st = st\<lparr>files := (files st)(name := None)\<rparr>"

fun run_deferred :: "deferred_call \<Rightarrow> state \<Rightarrow> state" where
  "run_deferred Defer_Body_Close st = Close Body st"
| "run_deferred (Defer_temp_Close_RemoveAll name) st = os_RemoveAll name (Close (File name) st)"
| "run_deferred Defer_zipfile_Close st = Close ZipReader st"
| "run_deferred (Defer_src_Close name) st = Close (EntryReader name) st"
| "run_deferred (Defer_dst_Close name) st = Close (File name) st"

text \<open>The return of \<^verbatim>\<open>main\<close>: the deferred calls run, the latest first, and the
  process exits with status 0.\<close>

definition return_main :: "state \<Rightarrow> state \<times> outcome" where
  "return_main st = (fold run_deferred (deferred st) (st\<lparr>deferred := []\<rparr>), Exit 0)"

section \<open>Formatting\<close>

text \<open>The verb \<^verbatim>\<open>%d\<close> for an \<^verbatim>\<open>int\<close>.\<close>

fun digits :: "nat \<Rightarrow> string" where
  "digits n = (if n < 10 then [''0123456789'' ! n]
               else digits (n div 10) @ [''0123456789'' ! (n mod 10)])"

declare digits.simps [simp del]

definition fmt_d :: "int \<Rightarrow> string" where
  "fmt_d i = (if i < 0 then CHR ''-'' # digits (nat (- i)) else digits (nat i))"

section \<open>printCodeInfo\<close>

text \<open>The slice \<^verbatim>\<open>t\<close> that printCodeInfo builds, then the loop printing it.\<close>

definition printCodeInfo_t :: "env \<Rightarrow> string list" where
  "printCodeInfo_t w =
     (let t0 = [''==== CODE INFOMATION ====''];
          isRelease = (RELEASE_FLAG w \<noteq> '''');
          t1 = (if isRelease then t0 @ [''VERSION: '' @ VERSION]
                else t0 @ [''VERSION: '' @ VERSION @ ''-dev'']);
          t2 = t1 @ [''REVISION: '' @ REVISION w];
          t3 = t2 @ [''URL(revision): '' @ REPOSITORY @ ''/commit/'' @ REVISION w];
          t4 = (if isRelease then t3 @ [''URL(tag): '' @ REPOSITORY @ ''/releases/tag/v'' @ VERSION]
                else t3)
      in t4)"

definition printCodeInfo :: "env \<Rightarrow> state \<Rightarrow> state" where
  "printCodeInfo w st = fold Fprintln_Stderr (printCodeInfo_t w) st"

section \<open>main: required parameters\<close>

fun requiredParameters_loop :: "env \<Rightarrow> string list \<Rightarrow> state \<Rightarrow> (state \<times> outcome) option" where
  "requiredParameters_loop w [] st = None"
| "requiredParameters_loop w (v # vs) st =
     (if v = ''''
      then Some (os_Exit 1
             (printCodeInfo w
               (Fprintln_Stderr ''''
                 (flag_PrintDefaults
                   (Fprintln_Stderr ''Parameters owner, repo are required'' st)))))
      else requiredParameters_loop w vs st)"

section \<open>main: listing the artifacts\<close>

text \<open>The \<^verbatim>\<open>for\<close> loop of lines 64 to 76. Each turn issues one listing request for
  \<open>page\<close> and takes the next answer of the remote.\<close>

fun list_loop ::
  "env \<Rightarrow> (error + Artifact list \<times> int) list \<Rightarrow> int \<Rightarrow> Artifact list \<Rightarrow> state
     \<Rightarrow> (state \<times> outcome) + (Artifact list \<times> state)" where
  "list_loop w [] page artifacts st =
     Inl (issue (ListArtifacts_request (GITHUB_TOKEN w) (owner w) (repo w) MAX_NUMBER_PER_PAGE page) st,
          Hang)"
| "list_loop w (r # rs) page artifacts st =
     (case r of
        Inl err \<Rightarrow>
          Inl (log_Fatalf (''unable to list artifacts. pqge: '' @ fmt_d page @ '', detail: '' @ err)
                 (issue (ListArtifacts_request (GITHUB_TOKEN w) (owner w) (repo w) MAX_NUMBER_PER_PAGE page) st))
      | Inr (artifactList, NextPage) \<Rightarrow>
          (if NextPage = 0
           then Inr (artifacts @ artifactList,
                     issue (ListArtifacts_request (GITHUB_TOKEN w) (owner w) (repo w) MAX_NUMBER_PER_PAGE page) st)
           else list_loop w rs NextPage (artifacts @ artifactList)
                  (issue (ListArtifacts_request (GITHUB_TOKEN w) (owner w) (repo w) MAX_NUMBER_PER_PAGE page) st)))"

section \<open>main: the newest artifact\<close>

text \<open>The comparison handed to \<^verbatim>\<open>sort.Slice\<close>:
  \<^verbatim>\<open>artifacts[i].GetCreatedAt().After(artifacts[j].GetCreatedAt().Time)\<close>.\<close>

definition createdAt_After :: "Artifact \<Rightarrow> Artifact \<Rightarrow> bool" where
  "createdAt_After a b = (GetCreatedAt b < GetCreatedAt a)"

text \<open>Lines 79 to 84: sort, then \<^verbatim>\<open>artifacts[0]\<close>, which panics on an empty slice
  (\<open>None\<close>).\<close>

definition newest ::
  "((Artifact \<Rightarrow> Artifact \<Rightarrow> bool) \<Rightarrow> Artifact list \<Rightarrow> Artifact list) \<Rightarrow> Artifact list \<Rightarrow> Artifact option" where
  "newest srt artifacts = (case srt createdAt_After artifacts of [] \<Rightarrow> None | artifact # _ \<Rightarrow> Some artifact)"

section \<open>The file system calls\<close>

text \<open>The directory part of a path: what stands before its last slash.\<close>

definition dirname :: "string \<Rightarrow> string" where
  "dirname name = rev (drop 1 (dropWhile (\<lambda>c. c \<noteq> CHR ''/'') (rev name)))"

text \<open>\<^verbatim>\<open>os.Create\<close> creates or truncates the named file and opens it. It creates no
  directory. It fails with "no such file or directory" when the name is empty or its
  directory part does not exist, and with "is a directory" when the name ends with a
  slash or names a directory. Permissions are not represented.\<close>

definition creatable :: "env \<Rightarrow> string \<Rightarrow> bool" where
  "creatable w name =
     (name \<noteq> '''' \<and> last name \<noteq> CHR ''/'' \<and> name \<notin> dirs w \<and>
      (dirname name = '''' \<or> dirname name \<in> dirs w))"

definition os_Create :: "env \<Rightarrow> string \<Rightarrow> state \<Rightarrow> error + state" where
  "os_Create w name st =
     (if creatable w name
      then Inr (open_handle (File name) (st\<lparr>files := (files st)(name \<mapsto> '''')\<rparr>))
      else if name \<noteq> '''' \<and> (dirname name = '''' \<or> dirname name \<in> dirs w)
      then Inl (''open '' @ name @ '': is a directory'')
      else Inl (''open '' @ name @ '': no such file or directory''))"

text \<open>\<^verbatim>\<open>io.Copy\<close> into the file created under \<open>name\<close>, from its start.
  \<open>copy_result\<close> gives the bytes that reach the file and the error returned: the one of
  the write that failed, or else the one that ended the reading.\<close>

definition copy_result :: "env \<Rightarrow> string \<Rightarrow> reader \<Rightarrow> string \<times> error option" where
  "copy_result w name src =
     (case write_limit w name of
        None \<Rightarrow> (data src, read_error src)
      | Some (n, e) \<Rightarrow>
          (if n < length (data src) then (take n (data src), Some e)
           else (data src, read_error src)))"

definition io_Copy :: "env \<Rightarrow> string \<Rightarrow> reader \<Rightarrow> state \<Rightarrow> state \<times> error option" where
  "io_Copy w name src st =
     (st\<lparr>files := (files st)(name \<mapsto> fst (copy_result w name src))\<rparr>,
      snd (copy_result w name src))"

definition temp_Name :: "env \<Rightarrow> string \<Rightarrow> string" where
  "temp_Name w random = TempDir w @ ''/'' @ ''tmpfile-latest-pdf-'' @ random @ ''.zip''"

text \<open>\<^verbatim>\<open>os.CreateTemp("", "tmpfile-latest-pdf-*.zip")\<close>: a new, empty file in the
  temporary directory, open for writing.\<close>

definition os_CreateTemp :: "env \<Rightarrow> state \<Rightarrow> error + (string \<times> state)" where
  "os_CreateTemp w st =
     (case CreateTemp w of
        Inl err \<Rightarrow> Inl err
      | Inr random \<Rightarrow>
          Inr (temp_Name w random,
               open_handle (File (temp_Name w random))
                 (st\<lparr>files := (files st)(temp_Name w random \<mapsto> '''')\<rparr>)))"

section \<open>main: extraction\<close>

text \<open>The \<^verbatim>\<open>for\<close> loop of lines 120 to 134. The value \<^verbatim>\<open>io.Copy\<close> returns is not
  looked at.\<close>

fun extract_loop :: "env \<Rightarrow> zip_File list \<Rightarrow> state \<Rightarrow> (state \<times> outcome) + state" where
  "extract_loop w [] st = Inr st"
| "extract_loop w (file # rest) st =
     (case file_Open file of
        Inl err \<Rightarrow> Inl (log_Fatalf (''unable to open src file. detail: '' @ err) st)
      | Inr src \<Rightarrow>
          (let st1 = go_defer (Defer_src_Close (file_Name file))
                       (open_handle (EntryReader (file_Name file)) st)
           in case os_Create w (file_Name file) st1 of
                Inl err \<Rightarrow> Inl (log_Fatalf (''unable to create dst file. detail: '' @ err) st1)
              | Inr st2 \<Rightarrow>
                  extract_loop w rest
                    (fst (io_Copy w (file_Name file) src
                            (go_defer (Defer_dst_Close (file_Name file)) st2)))))"

text \<open>Lines 114 to 135: \<^verbatim>\<open>zip.OpenReader\<close> on the temporary file, the loop, and the
  return of \<^verbatim>\<open>main\<close>.\<close>

definition unzip :: "env \<Rightarrow> string \<Rightarrow> state \<Rightarrow> state \<times> outcome" where
  "unzip w temp st =
     (case (case files st temp of
              None \<Rightarrow> Inl (''open '' @ temp @ '': no such file or directory'')
            | Some bytes \<Rightarrow> zip_OpenReader w bytes) of
        Inl err \<Rightarrow> log_Fatalf (''unable to open zip reader. detail: '' @ err) st
      | Inr zipfile \<Rightarrow>
          (case extract_loop w zipfile (go_defer Defer_zipfile_Close (open_handle ZipReader st)) of
             Inl t \<Rightarrow> t
           | Inr st' \<Rightarrow> return_main st'))"

section \<open>main: retrieving the archive\<close>

text \<open>Lines 87 to 112.\<close>

definition get_archive :: "env \<Rightarrow> int \<Rightarrow> state \<Rightarrow> state \<times> outcome" where
  "get_archive w artifactID st =
     (let st1 = issue (DownloadArtifact_request (GITHUB_TOKEN w) (owner w) (repo w) artifactID True) st
      in case DownloadArtifact w (owner w) (repo w) artifactID of
           Inl err \<Rightarrow> log_Fatalf (''unable to get download url. detail: '' @ err) st1
         | Inr url \<Rightarrow>
             (let st2 = issue (Get_request url) st1
              in case http_Get w url of
                   Inl err \<Rightarrow> log_Fatalf (''unable to get artifact. detail: '' @ err) st2
                 | Inr body \<Rightarrow>
                     (let st3 = go_defer Defer_Body_Close (open_handle Body st2)
                      in case os_CreateTemp w st3 of
                           Inl err \<Rightarrow> log_Fatalf (''unable to create temp file. detail: '' @ err) st3
                         | Inr (temp, st4) \<Rightarrow>
                             (case io_Copy w temp body (go_defer (Defer_temp_Close_RemoveAll temp) st4) of
                                (st5, Some err) \<Rightarrow>
                                  log_Fatalf (''unable to copy response body to file. detail: '' @ err) st5
                              | (st5, None) \<Rightarrow> unzip w temp (Close (File temp) st5)))))"

section \<open>main\<close>

definition main :: "env \<Rightarrow> state \<times> outcome" where
  "main w =
     (case requiredParameters_loop w [owner w, repo w] (init_state w) of
        Some t \<Rightarrow> t
      | None \<Rightarrow>
          (case list_loop w (ListArtifacts w) 1 [] (init_state w) of
             Inl t \<Rightarrow> t
           | Inr (artifacts, st) \<Rightarrow>
               (case newest (sort_Slice w) artifacts of
                  None \<Rightarrow> (st, Panic ''runtime error: index out of range [0] with length 0'')
                | Some artifact \<Rightarrow> get_archive w (GetID artifact) st)))"

section \<open>What sort.Slice promises\<close>

text \<open>The library documents \<^verbatim>\<open>sort.Slice\<close> as sorting the slice by the given
  comparison, with no promise of stability: the result holds the same elements, and no
  element comes before one that the comparison puts ahead of it. The promise is stated
  for the comparison that \<^verbatim>\<open>main\<close> passes.\<close>

definition sort_Slice_contract ::
  "((Artifact \<Rightarrow> Artifact \<Rightarrow> bool) \<Rightarrow> Artifact list \<Rightarrow> Artifact list) \<Rightarrow> bool" where
  "sort_Slice_contract srt =
     (\<forall>xs. mset (srt createdAt_After xs) = mset xs \<and>
           sorted_wrt (\<lambda>a b. \<not> createdAt_After b a) (srt createdAt_After xs))"

text \<open>Two routines of the library that keep the promise. Insertion sort is what
  \<^verbatim>\<open>sort.Slice\<close> runs on a slice of at most 12 elements from Go 1.19 on: each element
  moves left while the comparison puts it ahead of its left neighbour. \<open>sift_left\<close> takes
  the sorted part with its last element first. On longer slices the library sorts by
  partitioning; the routines below sort slices of any length.\<close>

fun sift_left :: "('a \<Rightarrow> 'a \<Rightarrow> bool) \<Rightarrow> 'a \<Rightarrow> 'a list \<Rightarrow> 'a list" where
  "sift_left lt x [] = [x]"
| "sift_left lt x (y # ys) = (if lt x y then y # sift_left lt x ys else x # y # ys)"

definition insertionSort :: "('a \<Rightarrow> 'a \<Rightarrow> bool) \<Rightarrow> 'a list \<Rightarrow> 'a list" where
  "insertionSort lt xs = rev (foldl (\<lambda>left x. sift_left lt x left) [] xs)"

text \<open>Up to Go 1.18, \<^verbatim>\<open>sort.Slice\<close> runs on such a slice one pass that compares the
  elements six places apart and swaps them when the later one is ahead, then insertion
  sort.\<close>

definition gap_step :: "('a \<Rightarrow> 'a \<Rightarrow> bool) \<Rightarrow> nat \<Rightarrow> 'a list \<Rightarrow> 'a list" where
  "gap_step lt i xs =
     (if lt (xs ! i) (xs ! (i - 6)) then xs[i := xs ! (i - 6), i - 6 := xs ! i] else xs)"

definition gap_pass :: "('a \<Rightarrow> 'a \<Rightarrow> bool) \<Rightarrow> 'a list \<Rightarrow> 'a list" where
  "gap_pass lt xs = fold (gap_step lt) [6..<length xs] xs"

definition gap_insertionSort :: "('a \<Rightarrow> 'a \<Rightarrow> bool) \<Rightarrow> 'a list \<Rightarrow> 'a list" where
  "gap_insertionSort lt xs = insertionSort lt (gap_pass lt xs)"

section \<open>Sample runs\<close>

definition sample_artifact :: "int \<Rightarrow> int \<Rightarrow> Artifact" where
  "sample_artifact i t = \<lparr>ID = Some i, Name = Some ''pdf'', CreatedAt = Some t\<rparr>"

definition sample_zip :: "zip_File list" where
  "sample_zip =
     [\<lparr>file_Name = ''a.txt'', file_Open = Inr \<lparr>data = ''hello'', read_error = None\<rparr>\<rparr>,
      \<lparr>file_Name = ''b/c.txt'', file_Open = Inr \<lparr>data = ''world'', read_error = None\<rparr>\<rparr>]"

text \<open>Two pages of artifacts, an archive with the two entries of \<open>sample_zip\<close>, and a
  working directory that holds the directory \<open>b\<close>.\<close>

definition sample_env :: env where
  "sample_env =
     \<lparr>GITHUB_TOKEN = ''secret'', owner = ''niku'', repo = ''demo'',
      REVISION = ''abc123'', RELEASE_FLAG = '''',
      ListArtifacts =
        [Inr ([sample_artifact 11 100, sample_artifact 12 300], 2), Inr ([sample_artifact 13 200], 0)],
      DownloadArtifact = (\<lambda>owner repo artifactID. Inr (''https://example.org/'' @ fmt_d artifactID)),
      http_Get = (\<lambda>url. Inr \<lparr>data = ''PK'', read_error = None\<rparr>),
      TempDir = ''/tmp'', CreateTemp = Inr ''42'',
      write_limit = (\<lambda>name. None),
      zip_OpenReader = (\<lambda>bytes. if bytes = ''PK'' then Inr sample_zip else Inl ''zip: not a valid zip file''),
      dirs = {''b''}, files0 = Map.empty,
      sort_Slice = insertionSort\<rparr>"

text \<open>An archive whose first entry breaks off while it is read.\<close>

definition broken_zip :: "zip_File list" where
  "broken_zip =
     [\<lparr>file_Name = ''a.txt'', file_Open = Inr \<lparr>data = ''hel'', read_error = Some ''unexpected EOF''\<rparr>\<rparr>,
      \<lparr>file_Name = ''b/c.txt'', file_Open = Inr \<lparr>data = ''world'', read_error = None\<rparr>\<rparr>]"

text \<open>Seven artifacts; the second and the last share the latest creation time.\<close>

definition tied_artifacts :: "Artifact list" where
  "tied_artifacts =
     [sample_artifact 0 5, sample_artifact 1 9, sample_artifact 2 4, sample_artifact 3 3,
      sample_artifact 4 2, sample_artifact 5 1, sample_artifact 6 9]"

section \<open>printCodeInfo and the required parameters\<close>

lemma fold_Fprintln_Stderr:
  "fold Fprintln_Stderr ls st = st\<lparr>stderr := stderr st @ map Fprintln ls\<rparr>"
  by (induction ls arbitrary: st) (simp_all add: Fprintln_Stderr_def)

lemma requiredParameters_loop_given:
  "owner w \<noteq> '''' \<Longrightarrow> repo w \<noteq> '''' \<Longrightarrow> requiredParameters_loop w [owner w, repo w] st = None"
  by simp

lemma requiredParameters_loop_missing:
  assumes "owner w = '''' \<or> repo w = ''''"
  shows "requiredParameters_loop w [owner w, repo w] st =
     Some (st\<lparr>stderr := stderr st @ [Fprintln ''Parameters owner, repo are required'', PrintDefaults,
                    Fprintln ''''] @ map Fprintln (printCodeInfo_t w)\<rparr>, Exit 1)"
  using assms
  by (auto simp add: os_Exit_def printCodeInfo_def fold_Fprintln_Stderr Fprintln_Stderr_def
      flag_PrintDefaults_def)

text \<open>C1. Whenever the owner flag or the repo flag is empty once the flags are parsed,
  the run ends with exit status 1; the error stream holds the notice, the flag defaults
  and the code information, in this order; no network request has been issued, and
  nothing else has changed.\<close>

theorem missing_parameter_exits_1:
  assumes "owner w = '''' \<or> repo w = ''''"
  shows "main w =
     (\<lparr>stderr = [Fprintln ''Parameters owner, repo are required'', PrintDefaults, Fprintln '''']
                 @ map Fprintln (printCodeInfo_t w),
       requests = [], files = files0 w, handles = [], deferred = []\<rparr>, Exit 1)"
  unfolding main_def requiredParameters_loop_missing [OF assms]
  by (simp add: init_state_def)

theorem missing_parameter_exits_1_witness:
  "main (sample_env\<lparr>repo := ''''\<rparr>) =
     (\<lparr>stderr = [Fprintln ''Parameters owner, repo are required'', PrintDefaults, Fprintln '''',
                 Fprintln ''==== CODE INFOMATION ===='', Fprintln ''VERSION: 0.0.1-dev'',
                 Fprintln ''REVISION: abc123'',
                 Fprintln ''URL(revision): https://github.com/coop-sapporo/get-the-latest-artifact-on-github-action/commit/abc123''],
       requests = [], files = Map.empty, handles = [], deferred = []\<rparr>, Exit 1)"
  using missing_parameter_exits_1 [of "sample_env\<lparr>repo := ''''\<rparr>"]
  by (simp add: sample_env_def printCodeInfo_t_def VERSION_def REPOSITORY_def)

text \<open>C9. When a required parameter is missing, what follows the three usage items on
  the error stream is the code information. With an empty release flag its version line
  is the version with \<^verbatim>\<open>-dev\<close> appended and no line is a tag URL line; with a non-empty
  release flag the version line is the plain version and the last line, the only tag
  URL line, ends with \<^verbatim>\<open>/releases/tag/v\<close> followed by the version.\<close>

theorem code_info_block:
  assumes "owner w = '''' \<or> repo w = ''''"
  shows "drop 3 (stderr (fst (main w))) = map Fprintln (printCodeInfo_t w) \<and>
         (RELEASE_FLAG w = '''' \<longrightarrow>
            printCodeInfo_t w ! 1 = ''VERSION: 0.0.1-dev'' \<and>
            (\<forall>line \<in> set (printCodeInfo_t w). \<not> prefix ''URL(tag)'' line)) \<and>
         (RELEASE_FLAG w \<noteq> '''' \<longrightarrow>
            printCodeInfo_t w ! 1 = ''VERSION: 0.0.1'' \<and>
            last (printCodeInfo_t w) = ''URL(tag): '' @ REPOSITORY @ ''/releases/tag/v'' @ ''0.0.1'' \<and>
            length (filter (prefix ''URL(tag)'') (printCodeInfo_t w)) = 1)"
  unfolding main_def requiredParameters_loop_missing [OF assms]
  by (simp add: init_state_def printCodeInfo_t_def VERSION_def)

theorem code_info_block_witness:
  "drop 3 (stderr (fst (main (sample_env\<lparr>owner := ''''\<rparr>)))) =
     map Fprintln (printCodeInfo_t (sample_env\<lparr>owner := ''''\<rparr>)) \<and>
   printCodeInfo_t (sample_env\<lparr>owner := ''''\<rparr>) ! 1 = ''VERSION: 0.0.1-dev'' \<and>
   list_all (\<lambda>line. \<not> prefix ''URL(tag)'' line) (printCodeInfo_t (sample_env\<lparr>owner := ''''\<rparr>)) \<and>
   printCodeInfo_t (sample_env\<lparr>owner := '''', RELEASE_FLAG := ''1''\<rparr>) ! 1 = ''VERSION: 0.0.1'' \<and>
   last (printCodeInfo_t (sample_env\<lparr>owner := '''', RELEASE_FLAG := ''1''\<rparr>)) =
     ''URL(tag): https://github.com/coop-sapporo/get-the-latest-artifact-on-github-action/releases/tag/v0.0.1''"
  using code_info_block [of "sample_env\<lparr>owner := ''''\<rparr>"]
        code_info_block [of "sample_env\<lparr>owner := '''', RELEASE_FLAG := ''1''\<rparr>"]
  by (simp add: sample_env_def printCodeInfo_t_def REPOSITORY_def list_all_iff)

section \<open>Listing\<close>

lemma list_loop_pages:
  assumes "\<forall>p \<in> set pages. snd p \<noteq> 0"
  shows "list_loop w (map Inr pages @ Inr (final, 0) # rest) page artifacts st =
     Inr (artifacts @ concat (map fst pages) @ final,
          st\<lparr>requests := requests st @
                map (ListArtifacts_request (GITHUB_TOKEN w) (owner w) (repo w) 100) (page # map snd pages)\<rparr>)"
  using assms
proof (induction pages arbitrary: page artifacts st)
  case Nil
  show ?case by (simp add: issue_def MAX_NUMBER_PER_PAGE_def)
next
  case (Cons p pages)
  obtain as nx where p: "p = (as, nx)" by (cases p)
  from Cons.prems p have nx: "nx \<noteq> 0" and rest: "\<forall>p \<in> set pages. snd p \<noteq> 0" by auto
  show ?case
    using nx by (simp add: p Cons.IH [OF rest] issue_def MAX_NUMBER_PER_PAGE_def)
qed

lemma list_loop_error:
  assumes "\<forall>p \<in> set pages. snd p \<noteq> 0"
  shows "list_loop w (map Inr pages @ Inl err # rest) page artifacts st =
     Inl (st\<lparr>stderr := stderr st @
                [Log_Printf (''unable to list artifacts. pqge: '' @ fmt_d (last (page # map snd pages))
                             @ '', detail: '' @ err)],
              requests := requests st @
                map (ListArtifacts_request (GITHUB_TOKEN w) (owner w) (repo w) 100) (page # map snd pages)\<rparr>,
          Exit 1)"
  using assms
proof (induction pages arbitrary: page artifacts st)
  case Nil
  show ?case by (simp add: issue_def MAX_NUMBER_PER_PAGE_def log_Fatalf_def os_Exit_def)
next
  case (Cons p pages)
  obtain as nx where p: "p = (as, nx)" by (cases p)
  from Cons.prems p have nx: "nx \<noteq> 0" and rest: "\<forall>p \<in> set pages. snd p \<noteq> 0" by auto
  show ?case
    using nx by (simp add: p Cons.IH [OF rest] issue_def MAX_NUMBER_PER_PAGE_def)
qed

text \<open>When every answer announces a next page, the loop is still asking when the
  answers end.\<close>

lemma list_loop_blocks:
  assumes "\<forall>p \<in> set pages. snd p \<noteq> 0"
  shows "list_loop w (map Inr pages) page artifacts st =
     Inl (st\<lparr>requests := requests st @
                map (ListArtifacts_request (GITHUB_TOKEN w) (owner w) (repo w) 100) (page # map snd pages)\<rparr>,
          Hang)"
  using assms
proof (induction pages arbitrary: page artifacts st)
  case Nil
  show ?case by (simp add: issue_def MAX_NUMBER_PER_PAGE_def)
next
  case (Cons p pages)
  obtain as nx where p: "p = (as, nx)" by (cases p)
  from Cons.prems p have nx: "nx \<noteq> 0" and rest: "\<forall>p \<in> set pages. snd p \<noteq> 0" by auto
  show ?case
    using nx by (simp add: p Cons.IH [OF rest] issue_def MAX_NUMBER_PER_PAGE_def)
qed

text \<open>C2. When the answers to the listing calls are pages whose next-page values are not
  zero, followed by a page whose next-page value is zero, the loop returns the
  concatenation of the pages' artifacts in the order received. It has issued one request
  per page, each with page size 100: the first for page 1, every later one for the
  next-page value of the answer before it. Answers beyond the final page are not asked
  for.\<close>

theorem listing_concatenates_pages:
  assumes "\<forall>p \<in> set pages. snd p \<noteq> 0"
  shows "list_loop w (map Inr pages @ Inr (final, 0) # rest) 1 [] st =
     Inr (concat (map fst pages) @ final,
          st\<lparr>requests := requests st @
                map (ListArtifacts_request (GITHUB_TOKEN w) (owner w) (repo w) 100) (1 # map snd pages)\<rparr>)"
  using list_loop_pages [OF assms, of w final rest 1 "[]" st] by simp

theorem listing_concatenates_pages_witness:
  "list_loop sample_env (ListArtifacts sample_env) 1 [] (init_state sample_env) =
     Inr ([sample_artifact 11 100, sample_artifact 12 300, sample_artifact 13 200],
          (init_state sample_env)\<lparr>requests :=
             [ListArtifacts_request ''secret'' ''niku'' ''demo'' 100 1,
              ListArtifacts_request ''secret'' ''niku'' ''demo'' 100 2]\<rparr>)"
  using listing_concatenates_pages
    [of "[([sample_artifact 11 100, sample_artifact 12 300], 2)]" sample_env "[sample_artifact 13 200]" "[]"
        "init_state sample_env"]
  by (simp add: sample_env_def init_state_def)

text \<open>C3. When a listing call returns an error after any number of pages that announced a
  next page, the run ends there with exit status 1. The error stream holds one message,
  with the number of the page asked for and the error; the only requests issued are the
  listing requests up to the failing one; no file is written and nothing is open.\<close>

theorem listing_error_is_fatal:
  assumes "owner w \<noteq> ''''" and "repo w \<noteq> ''''"
    and "ListArtifacts w = map Inr pages @ Inl err # rest"
    and "\<forall>p \<in> set pages. snd p \<noteq> 0"
  shows "main w =
     (\<lparr>stderr = [Log_Printf (''unable to list artifacts. pqge: '' @ fmt_d (last (1 # map snd pages))
                              @ '', detail: '' @ err)],
       requests = map (ListArtifacts_request (GITHUB_TOKEN w) (owner w) (repo w) 100) (1 # map snd pages),
       files = files0 w, handles = [], deferred = []\<rparr>, Exit 1)"
  unfolding main_def requiredParameters_loop_given [OF assms(1,2)] assms(3) list_loop_error [OF assms(4)]
  by (simp add: init_state_def)

theorem listing_error_is_fatal_witness:
  "main (sample_env\<lparr>ListArtifacts :=
       [Inr ([sample_artifact 11 100], 2), Inl ''boom'', Inr ([sample_artifact 13 200], 0)]\<rparr>) =
     (\<lparr>stderr = [Log_Printf ''unable to list artifacts. pqge: 2, detail: boom''],
       requests = [ListArtifacts_request ''secret'' ''niku'' ''demo'' 100 1,
                   ListArtifacts_request ''secret'' ''niku'' ''demo'' 100 2],
       files = Map.empty, handles = [], deferred = []\<rparr>, Exit 1)"
  using listing_error_is_fatal
    [of "sample_env\<lparr>ListArtifacts :=
       [Inr ([sample_artifact 11 100], 2), Inl ''boom'', Inr ([sample_artifact 13 200], 0)]\<rparr>"
        "[([sample_artifact 11 100], 2)]" "''boom''" "[Inr ([sample_artifact 13 200], 0)]"]
  by (simp add: sample_env_def fmt_d_def digits.simps)

section \<open>Selection\<close>

lemma mset_sift_left: "mset (sift_left lt x ys) = add_mset x (mset ys)"
  by (induction ys) simp_all

lemma set_sift_left: "set (sift_left lt x ys) = insert x (set ys)"
  by (induction ys) auto

lemma mset_foldl_sift_left:
  "mset (foldl (\<lambda>left x. sift_left lt x left) acc xs) = mset acc + mset xs"
  by (induction xs arbitrary: acc) (simp_all add: mset_sift_left)

lemma mset_insertionSort: "mset (insertionSort lt xs) = mset xs"
  by (simp add: insertionSort_def mset_foldl_sift_left)

text \<open>The sorted part, read from its last element: creation times do not decrease.\<close>

lemma sorted_sift_left:
  assumes "sorted_wrt (\<lambda>a b. GetCreatedAt a \<le> GetCreatedAt b) ys"
  shows "sorted_wrt (\<lambda>a b. GetCreatedAt a \<le> GetCreatedAt b) (sift_left createdAt_After x ys)"
  using assms
  by (induction ys) (auto simp add: set_sift_left createdAt_After_def)

lemma sorted_foldl_sift_left:
  assumes "sorted_wrt (\<lambda>a b. GetCreatedAt a \<le> GetCreatedAt b) acc"
  shows "sorted_wrt (\<lambda>a b. GetCreatedAt a \<le> GetCreatedAt b)
           (foldl (\<lambda>left x. sift_left createdAt_After x left) acc xs)"
  using assms
  by (induction xs arbitrary: acc) (simp_all add: sorted_sift_left)

lemma sorted_insertionSort:
  "sorted_wrt (\<lambda>a b. \<not> createdAt_After b a) (insertionSort createdAt_After xs)"
proof -
  have "sorted_wrt (\<lambda>a b. GetCreatedAt a \<le> GetCreatedAt b)
          (foldl (\<lambda>left x. sift_left createdAt_After x left) [] xs)"
    by (rule sorted_foldl_sift_left) simp
  then have "sorted_wrt (\<lambda>a b. GetCreatedAt b \<le> GetCreatedAt a) (insertionSort createdAt_After xs)"
    by (simp add: insertionSort_def sorted_wrt_rev)
  then show ?thesis
    by (simp add: createdAt_After_def not_less)
qed

lemma insertionSort_contract: "sort_Slice_contract insertionSort"
  by (simp add: sort_Slice_contract_def mset_insertionSort sorted_insertionSort)

lemma gap_step_length: "length (gap_step lt i xs) = length xs"
  by (simp add: gap_step_def)

lemma gap_step_mset:
  assumes "i < length xs"
  shows "mset (gap_step lt i xs) = mset xs"
  using assms by (simp add: gap_step_def mset_swap)

lemma fold_gap_step:
  assumes "\<forall>i \<in> set is. i < length xs"
  shows "length (fold (gap_step lt) is xs) = length xs \<and> mset (fold (gap_step lt) is xs) = mset xs"
  using assms
  by (induction "is" arbitrary: xs) (simp_all add: gap_step_length gap_step_mset)

lemma mset_gap_pass: "mset (gap_pass lt xs) = mset xs"
  by (simp add: gap_pass_def fold_gap_step)

lemma gap_insertionSort_contract: "sort_Slice_contract gap_insertionSort"
  by (simp add: sort_Slice_contract_def gap_insertionSort_def mset_insertionSort mset_gap_pass
      sorted_insertionSort)

lemma newest_maximum:
  assumes "sort_Slice_contract srt" and "xs \<noteq> []"
  shows "\<exists>a \<in> set xs. newest srt xs = Some a \<and> (\<forall>b \<in> set xs. GetCreatedAt b \<le> GetCreatedAt a)"
proof -
  let ?ys = "srt createdAt_After xs"
  from assms(1) have m: "mset ?ys = mset xs"
    and s: "sorted_wrt (\<lambda>a b. \<not> createdAt_After b a) ?ys"
    by (simp_all add: sort_Slice_contract_def)
  from m have set: "set ?ys = set xs" by (rule mset_eq_setD)
  with assms(2) obtain a rest where ys: "?ys = a # rest" by (cases ?ys) auto
  from s ys have "\<forall>b \<in> set rest. GetCreatedAt b \<le> GetCreatedAt a"
    by (simp add: createdAt_After_def not_less)
  with set ys have "\<forall>b \<in> set xs. GetCreatedAt b \<le> GetCreatedAt a" by auto
  moreover from set ys have "a \<in> set xs" by auto
  moreover from ys have "newest srt xs = Some a" by (simp add: newest_def)
  ultimately show ?thesis by blast
qed

text \<open>C4. Let the creation times of a collection be pairwise distinct and let \<open>a\<close> be
  its artifact with the greatest creation time. Then for every arrangement \<open>ys\<close> of the
  collection, sorting by creation time, latest first, and taking the element at index 0
  gives \<open>a\<close>, whatever routine keeping the promise of \<^verbatim>\<open>sort.Slice\<close> does the sorting.\<close>

theorem newest_of_distinct_times:
  assumes "sort_Slice_contract srt"
    and "distinct (map GetCreatedAt xs)"
    and "a \<in> set xs" and "\<forall>b \<in> set xs. GetCreatedAt b \<le> GetCreatedAt a"
    and "mset ys = mset xs"
  shows "newest srt ys = Some a"
proof -
  from assms(5) have set: "set ys = set xs" by (rule mset_eq_setD)
  with assms(3) have "ys \<noteq> []" by auto
  from newest_maximum [OF assms(1) this] set obtain c
    where c: "c \<in> set xs" "newest srt ys = Some c" "\<forall>b \<in> set xs. GetCreatedAt b \<le> GetCreatedAt c"
    by auto
  from c(1,3) assms(3,4) have "GetCreatedAt c = GetCreatedAt a" by (simp add: order.antisym)
  moreover from assms(2) have "inj_on GetCreatedAt (set xs)" by (simp add: distinct_map)
  ultimately have "c = a" using c(1) assms(3) by (auto dest: inj_onD)
  with c(2) show ?thesis by simp
qed

theorem newest_of_distinct_times_witness:
  "newest insertionSort [sample_artifact 13 200, sample_artifact 11 100, sample_artifact 12 300] =
     Some (sample_artifact 12 300) \<and>
   newest gap_insertionSort [sample_artifact 12 300, sample_artifact 13 200, sample_artifact 11 100] =
     Some (sample_artifact 12 300)"
  using newest_of_distinct_times [OF insertionSort_contract,
          of "[sample_artifact 11 100, sample_artifact 12 300, sample_artifact 13 200]"
             "sample_artifact 12 300"
             "[sample_artifact 13 200, sample_artifact 11 100, sample_artifact 12 300]"]
        newest_of_distinct_times [OF gap_insertionSort_contract,
          of "[sample_artifact 11 100, sample_artifact 12 300, sample_artifact 13 200]"
             "sample_artifact 12 300"
             "[sample_artifact 12 300, sample_artifact 13 200, sample_artifact 11 100]"]
  by (simp add: sample_artifact_def GetCreatedAt_def)

text \<open>C5, as the code has it. Sorting and taking the element at index 0 gives an artifact
  of the collection whose creation time is the greatest. When several artifacts share
  that time, the promise of \<^verbatim>\<open>sort.Slice\<close> does not say which of them it is.\<close>

theorem newest_has_latest_time:
  assumes "sort_Slice_contract srt" and "xs \<noteq> []"
  shows "\<exists>a \<in> set xs. newest srt xs = Some a \<and> (\<forall>b \<in> set xs. GetCreatedAt b \<le> GetCreatedAt a)"
  using newest_maximum [OF assms] .

theorem newest_has_latest_time_witness:
  "tied_artifacts \<noteq> [] \<and>
   (\<exists>a \<in> set tied_artifacts. newest gap_insertionSort tied_artifacts = Some a \<and> GetCreatedAt a = 9)"
proof -
  have "tied_artifacts \<noteq> []" by (simp add: tied_artifacts_def)
  moreover from newest_has_latest_time [OF gap_insertionSort_contract this]
  have "\<exists>a \<in> set tied_artifacts. newest gap_insertionSort tied_artifacts = Some a \<and> GetCreatedAt a = 9"
    by (auto simp add: tied_artifacts_def sample_artifact_def GetCreatedAt_def)
  ultimately show ?thesis by simp
qed

text \<open>C5, as stated, fails. In \<open>tied_artifacts\<close> the artifacts 1 and 6 share the greatest
  creation time and artifact 1 is the first of them in enumeration order. Insertion sort
  leaves artifact 1 at index 0; the routine with the pass over elements six apart, which
  keeps the promise of \<^verbatim>\<open>sort.Slice\<close> as well, leaves artifact 6 there, and a run
  that lists these artifacts with it asks for the download of artifact 6.\<close>

theorem tie_not_resolved_by_enumeration_order:
  "sort_Slice_contract gap_insertionSort \<and>
   list_all (\<lambda>b. GetCreatedAt b \<le> 9) tied_artifacts \<and>
   find (\<lambda>b. GetCreatedAt b = 9) tied_artifacts = Some (sample_artifact 1 9) \<and>
   newest gap_insertionSort tied_artifacts = Some (sample_artifact 6 9) \<and>
   sample_artifact 6 9 \<noteq> sample_artifact 1 9 \<and>
   newest insertionSort tied_artifacts = Some (sample_artifact 1 9) \<and>
   requests (fst (main (sample_env\<lparr>ListArtifacts := [Inr (tied_artifacts, 0)],
                                    sort_Slice := gap_insertionSort\<rparr>))) =
     [ListArtifacts_request ''secret'' ''niku'' ''demo'' 100 1,
      DownloadArtifact_request ''secret'' ''niku'' ''demo'' 6 True,
      Get_request ''https://example.org/6'']"
  by (simp add: gap_insertionSort_contract tied_artifacts_def sample_artifact_def GetCreatedAt_def
      newest_def gap_insertionSort_def gap_pass_def gap_step_def insertionSort_def
      createdAt_After_def upt_rec [of 6 7]
      main_def sample_env_def init_state_def issue_def MAX_NUMBER_PER_PAGE_def GetID_def
       get_archive_def fmt_d_def digits.simps os_CreateTemp_def temp_Name_def open_handle_def
       go_defer_def io_Copy_def copy_result_def Close_def unzip_def log_Fatalf_def os_Exit_def
       sample_zip_def os_Create_def creatable_def dirname_def return_main_def os_RemoveAll_def)

section \<open>The run after the listing\<close>

lemma main_after_listing:
  assumes "owner w \<noteq> ''''" and "repo w \<noteq> ''''"
    and "list_loop w (ListArtifacts w) 1 [] (init_state w) = Inr (artifacts, st)"
  shows "main w =
     (case newest (sort_Slice w) artifacts of
        None \<Rightarrow> (st, Panic ''runtime error: index out of range [0] with length 0'')
      | Some artifact \<Rightarrow> get_archive w (GetID artifact) st)"
  unfolding main_def requiredParameters_loop_given [OF assms(1,2)] assms(3) by simp

lemma newest_Nil:
  assumes "sort_Slice_contract srt"
  shows "newest srt [] = None"
proof -
  from assms have "mset (srt createdAt_After []) = {#}" by (simp add: sort_Slice_contract_def)
  then show ?thesis by (simp add: newest_def)
qed

text \<open>A listing that completes has only added listing requests to the state.\<close>

lemma list_loop_completes:
  assumes "list_loop w rs page artifacts st = Inr (artifacts', st')"
  shows "\<exists>pages. st' = st\<lparr>requests := requests st @
            map (ListArtifacts_request (GITHUB_TOKEN w) (owner w) (repo w) 100) pages\<rparr>"
  using assms
proof (induction rs arbitrary: page artifacts st)
  case Nil
  then show ?case by simp
next
  case (Cons r rs)
  show ?case
  proof (cases r)
    case (Inl err)
    with Cons.prems show ?thesis by simp
  next
    case (Inr p)
    obtain as nx where p: "p = (as, nx)" by (cases p)
    show ?thesis
    proof (cases "nx = 0")
      case True
      with Cons.prems Inr p
      have "st' = st\<lparr>requests := requests st @
              map (ListArtifacts_request (GITHUB_TOKEN w) (owner w) (repo w) 100) [page]\<rparr>"
        by (simp add: issue_def MAX_NUMBER_PER_PAGE_def)
      then show ?thesis by blast
    next
      case False
      with Cons.prems Inr p
      have "list_loop w rs nx (artifacts @ as)
              (issue (ListArtifacts_request (GITHUB_TOKEN w) (owner w) (repo w) MAX_NUMBER_PER_PAGE page) st)
            = Inr (artifacts', st')"
        by simp
      from Cons.IH [OF this] obtain pages where
        "st' = st\<lparr>requests := requests st @
              map (ListArtifacts_request (GITHUB_TOKEN w) (owner w) (repo w) 100) (page # pages)\<rparr>"
        by (auto simp add: issue_def MAX_NUMBER_PER_PAGE_def)
      then show ?thesis by blast
    qed
  qed
qed

text \<open>C6, as the code has it. When the listing completes with no artifact at all, the
  sort runs on the empty slice and \<^verbatim>\<open>artifacts[0]\<close> panics: the process ends with
  the run-time fault "index out of range", the program itself has written nothing to the
  error stream, only listing requests have been issued and no file has been touched.
  There is no check for the empty collection before the selection.\<close>

theorem empty_collection_panics:
  assumes "sort_Slice_contract (sort_Slice w)"
    and "owner w \<noteq> ''''" and "repo w \<noteq> ''''"
    and "list_loop w (ListArtifacts w) 1 [] (init_state w) = Inr ([], st)"
  shows "main w = (st, Panic ''runtime error: index out of range [0] with length 0'') \<and>
         stderr st = [] \<and> files st = files0 w \<and>
         (\<exists>pages. requests st =
            map (ListArtifacts_request (GITHUB_TOKEN w) (owner w) (repo w) 100) pages)"
proof -
  have "main w = (st, Panic ''runtime error: index out of range [0] with length 0'')"
    by (simp add: main_after_listing [OF assms(2,3,4)] newest_Nil [OF assms(1)])
  moreover from list_loop_completes [OF assms(4)] obtain pages where
    "st = (init_state w)\<lparr>requests := requests (init_state w) @
            map (ListArtifacts_request (GITHUB_TOKEN w) (owner w) (repo w) 100) pages\<rparr>"
    by blast
  then have "stderr st = [] \<and> files st = files0 w \<and>
      requests st = map (ListArtifacts_request (GITHUB_TOKEN w) (owner w) (repo w) 100) pages"
    by (simp add: init_state_def)
  ultimately show ?thesis by blast
qed

theorem empty_collection_panics_witness:
  "main (sample_env\<lparr>ListArtifacts := [Inr ([], 0)]\<rparr>) =
     (\<lparr>stderr = [], requests = [ListArtifacts_request ''secret'' ''niku'' ''demo'' 100 1],
       files = Map.empty, handles = [], deferred = []\<rparr>,
      Panic ''runtime error: index out of range [0] with length 0'')"
  using empty_collection_panics [of "sample_env\<lparr>ListArtifacts := [Inr ([], 0)]\<rparr>"
          "\<lparr>stderr = [], requests = [ListArtifacts_request ''secret'' ''niku'' ''demo'' 100 1],
            files = Map.empty, handles = [], deferred = []\<rparr>"]
  by (simp add: sample_env_def insertionSort_contract init_state_def issue_def MAX_NUMBER_PER_PAGE_def)

section \<open>Retrieval and extraction\<close>

lemma temp_Name_last: "last (temp_Name w random) = CHR ''p''"
  by (simp add: temp_Name_def)

lemma temp_Name_not_txt:
  "temp_Name w random \<noteq> ''a.txt''" "temp_Name w random \<noteq> ''b/c.txt''"
  "''a.txt'' \<noteq> temp_Name w random" "''b/c.txt'' \<noteq> temp_Name w random"
  using temp_Name_last [of w random] by (auto dest: sym)

lemma get_archive_copied:
  assumes "DownloadArtifact w (owner w) (repo w) artifactID = Inr url"
    and "http_Get w url = Inr body"
    and "CreateTemp w = Inr random"
    and "copy_result w (temp_Name w random) body = (bytes, None)"
  shows "get_archive w artifactID st =
     unzip w (temp_Name w random)
       \<lparr>stderr = stderr st,
        requests = requests st @
              [DownloadArtifact_request (GITHUB_TOKEN w) (owner w) (repo w) artifactID True, Get_request url],
        files = (files st)(temp_Name w random \<mapsto> bytes),
        handles = Body # handles st,
        deferred = Defer_temp_Close_RemoveAll (temp_Name w random) # Defer_Body_Close # deferred st\<rparr>"
  by (cases st)
     (simp add: get_archive_def assms os_CreateTemp_def io_Copy_def issue_def go_defer_def
      open_handle_def Close_def)

text \<open>C8, as the code has it. Let every step up to the download succeed and the archive
  hold exactly the entries \<^verbatim>\<open>a.txt\<close> with \<^verbatim>\<open>hello\<close> and \<^verbatim>\<open>b/c.txt\<close> with \<^verbatim>\<open>world\<close>.
  If the directory \<^verbatim>\<open>b\<close> exists already, neither name is a directory and the writes
  to the two files do not fail, the run ends with exit status 0 and both files hold
  their entry's bytes.\<close>

theorem extraction_round_trip:
  assumes "owner w \<noteq> ''''" and "repo w \<noteq> ''''"
    and "list_loop w (ListArtifacts w) 1 [] (init_state w) = Inr (artifacts, st)"
    and "newest (sort_Slice w) artifacts = Some artifact"
    and "DownloadArtifact w (owner w) (repo w) (GetID artifact) = Inr url"
    and "http_Get w url = Inr body"
    and "CreateTemp w = Inr random"
    and "copy_result w (temp_Name w random) body = (bytes, None)"
    and "zip_OpenReader w bytes =
           Inr [\<lparr>file_Name = ''a.txt'', file_Open = Inr \<lparr>data = ''hello'', read_error = None\<rparr>\<rparr>,
                \<lparr>file_Name = ''b/c.txt'', file_Open = Inr \<lparr>data = ''world'', read_error = None\<rparr>\<rparr>]"
    and "''b'' \<in> dirs w" and "''a.txt'' \<notin> dirs w" and "''b/c.txt'' \<notin> dirs w"
    and "write_limit w ''a.txt'' = None" and "write_limit w ''b/c.txt'' = None"
  shows "snd (main w) = Exit 0 \<and>
         files (fst (main w)) ''a.txt'' = Some ''hello'' \<and>
         files (fst (main w)) ''b/c.txt'' = Some ''world''"
proof -
  from list_loop_completes [OF assms(3)] have st: "deferred st = []"
    by (auto simp add: init_state_def)
  have "main w = unzip w (temp_Name w random)
       \<lparr>stderr = stderr st,
        requests = requests st @
              [DownloadArtifact_request (GITHUB_TOKEN w) (owner w) (repo w) (GetID artifact) True,
               Get_request url],
        files = (files st)(temp_Name w random \<mapsto> bytes),
        handles = Body # handles st,
        deferred = [Defer_temp_Close_RemoveAll (temp_Name w random), Defer_Body_Close]\<rparr>"
    by (simp add: main_after_listing [OF assms(1,2,3)] assms(4) get_archive_copied [OF assms(5,6,7,8)] st)
  then show ?thesis
    using assms(10-14)
    by (simp add: unzip_def assms(9) os_Create_def creatable_def dirname_def io_Copy_def copy_result_def
      go_defer_def open_handle_def return_main_def Close_def os_RemoveAll_def temp_Name_not_txt)
qed

theorem extraction_round_trip_witness:
  "snd (main sample_env) = Exit 0 \<and>
   files (fst (main sample_env)) ''a.txt'' = Some ''hello'' \<and>
   files (fst (main sample_env)) ''b/c.txt'' = Some ''world''"
  using extraction_round_trip [of sample_env
     "[sample_artifact 11 100, sample_artifact 12 300, sample_artifact 13 200]"
     "(init_state sample_env)\<lparr>requests :=
             [ListArtifacts_request ''secret'' ''niku'' ''demo'' 100 1,
              ListArtifacts_request ''secret'' ''niku'' ''demo'' 100 2]\<rparr>"
     "sample_artifact 12 300" "''https://example.org/12''" "\<lparr>data = ''PK'', read_error = None\<rparr>"
     "''42''" "''PK''"]
  by (simp add: sample_env_def init_state_def issue_def MAX_NUMBER_PER_PAGE_def
       newest_def insertionSort_def createdAt_After_def GetCreatedAt_def GetID_def sample_artifact_def
       fmt_d_def digits.simps copy_result_def sample_zip_def)

text \<open>C8, as stated, fails: \<^verbatim>\<open>os.Create\<close> makes no directory. With the same archive
  and a working directory without \<^verbatim>\<open>b\<close>, \<^verbatim>\<open>a.txt\<close> is written and the run aborts at
  \<^verbatim>\<open>b/c.txt\<close> with exit status 1.\<close>

theorem missing_directory_aborts_extraction:
  "main (sample_env\<lparr>dirs := {}\<rparr>) =
     (\<lparr>stderr = [Log_Printf ''unable to create dst file. detail: open b/c.txt: no such file or directory''],
       requests = [ListArtifacts_request ''secret'' ''niku'' ''demo'' 100 1,
                   ListArtifacts_request ''secret'' ''niku'' ''demo'' 100 2,
                   DownloadArtifact_request ''secret'' ''niku'' ''demo'' 12 True,
                   Get_request ''https://example.org/12''],
       files = [''/tmp/tmpfile-latest-pdf-42.zip'' \<mapsto> ''PK'', ''a.txt'' \<mapsto> ''hello''],
       handles = [EntryReader ''b/c.txt'', File ''a.txt'', EntryReader ''a.txt'', ZipReader, Body],
       deferred = [Defer_src_Close ''b/c.txt'', Defer_dst_Close ''a.txt'', Defer_src_Close ''a.txt'',
                   Defer_zipfile_Close, Defer_temp_Close_RemoveAll ''/tmp/tmpfile-latest-pdf-42.zip'',
                   Defer_Body_Close]\<rparr>,
      Exit 1)"
  by (simp add: main_def sample_env_def init_state_def issue_def MAX_NUMBER_PER_PAGE_def
       newest_def insertionSort_def createdAt_After_def GetCreatedAt_def GetID_def sample_artifact_def
       get_archive_def fmt_d_def digits.simps os_CreateTemp_def temp_Name_def open_handle_def
       go_defer_def io_Copy_def copy_result_def Close_def unzip_def log_Fatalf_def os_Exit_def
       sample_zip_def os_Create_def creatable_def dirname_def)


lemma extract_loop_Cons_created:
  assumes "file_Open f = Inr src" and "creatable w (file_Name f)"
  shows "extract_loop w (f # rest) st =
     extract_loop w rest
       (st\<lparr>files := (files st)(file_Name f \<mapsto> fst (copy_result w (file_Name f) src)),
            handles := File (file_Name f) # EntryReader (file_Name f) # handles st,
            deferred := Defer_dst_Close (file_Name f) # Defer_src_Close (file_Name f) # deferred st\<rparr>)"
  using assms
  by (cases st) (simp add: os_Create_def io_Copy_def go_defer_def open_handle_def)

lemma extract_loop_runs:
  assumes "\<forall>f \<in> set zipfile. \<exists>src. file_Open f = Inr src"
    and "\<forall>f \<in> set zipfile. creatable w (file_Name f)"
  shows "\<exists>st' ds. extract_loop w zipfile st = Inr st' \<and>
           stderr st' = stderr st \<and> requests st' = requests st \<and>
           deferred st' = ds @ deferred st \<and>
           (\<forall>s. files (fold run_deferred ds s) = files s \<and> stderr (fold run_deferred ds s) = stderr s) \<and>
           (\<forall>name. name \<notin> file_Name ` set zipfile \<longrightarrow> files st' name = files st name) \<and>
           (\<forall>f \<in> set zipfile. files st' (file_Name f) \<noteq> None)"
  using assms
proof (induction zipfile arbitrary: st)
  case Nil
  show ?case by simp
next
  case (Cons f rest)
  from Cons.prems obtain src where src: "file_Open f = Inr src" by auto
  from Cons.prems have cr: "creatable w (file_Name f)" by simp
  let ?st2 = "st\<lparr>files := (files st)(file_Name f \<mapsto> fst (copy_result w (file_Name f) src)),
            handles := File (file_Name f) # EntryReader (file_Name f) # handles st,
            deferred := Defer_dst_Close (file_Name f) # Defer_src_Close (file_Name f) # deferred st\<rparr>"
  from Cons.prems have "\<forall>f \<in> set rest. \<exists>src. file_Open f = Inr src"
    and "\<forall>f \<in> set rest. creatable w (file_Name f)" by simp_all
  from Cons.IH [OF this, of ?st2] obtain st' ds where
    run: "extract_loop w rest ?st2 = Inr st'"
    and frame: "stderr st' = stderr st" "requests st' = requests st"
    and ds: "deferred st' = ds @ Defer_dst_Close (file_Name f) # Defer_src_Close (file_Name f) # deferred st"
    and keep: "\<forall>s. files (fold run_deferred ds s) = files s \<and> stderr (fold run_deferred ds s) = stderr s"
    and other: "\<forall>name. name \<notin> file_Name ` set rest \<longrightarrow> files st' name = files ?st2 name"
    and made: "\<forall>f \<in> set rest. files st' (file_Name f) \<noteq> None"
    by auto
  have "extract_loop w (f # rest) st = Inr st'"
    by (simp only: extract_loop_Cons_created [OF src cr] run)
  moreover have "deferred st' = (ds @ [Defer_dst_Close (file_Name f), Defer_src_Close (file_Name f)]) @ deferred st"
    using ds by simp
  moreover have "\<forall>s. files (fold run_deferred (ds @ [Defer_dst_Close (file_Name f), Defer_src_Close (file_Name f)]) s) = files s
       \<and> stderr (fold run_deferred (ds @ [Defer_dst_Close (file_Name f), Defer_src_Close (file_Name f)]) s) = stderr s"
    using keep by (simp add: Close_def)
  moreover have "\<forall>name. name \<notin> file_Name ` set (f # rest) \<longrightarrow> files st' name = files st name"
    using other by simp
  moreover have "\<forall>g \<in> set (f # rest). files st' (file_Name g) \<noteq> None"
  proof
    fix g assume g: "g \<in> set (f # rest)"
    show "files st' (file_Name g) \<noteq> None"
    proof (cases "file_Name g \<in> file_Name ` set rest")
      case True
      with made show ?thesis by auto
    next
      case False
      with g have "file_Name g = file_Name f" by auto
      with False other show ?thesis by simp
    qed
  qed
  ultimately show ?case using frame by blast
qed

lemma extract_loop_contents:
  assumes "\<forall>f \<in> set zipfile. \<exists>src. file_Open f = Inr src"
    and "\<forall>f \<in> set zipfile. creatable w (file_Name f)"
    and "distinct (map file_Name zipfile)"
    and "extract_loop w zipfile st = Inr st'"
    and "f \<in> set zipfile" and "file_Open f = Inr src"
  shows "files st' (file_Name f) = Some (fst (copy_result w (file_Name f) src))"
  using assms
proof (induction zipfile arbitrary: st)
  case Nil
  then show ?case by simp
next
  case (Cons g rest)
  from Cons.prems obtain srcg where srcg: "file_Open g = Inr srcg" by auto
  from Cons.prems have cr: "creatable w (file_Name g)" by simp
  let ?st2 = "st\<lparr>files := (files st)(file_Name g \<mapsto> fst (copy_result w (file_Name g) srcg)),
            handles := File (file_Name g) # EntryReader (file_Name g) # handles st,
            deferred := Defer_dst_Close (file_Name g) # Defer_src_Close (file_Name g) # deferred st\<rparr>"
  from Cons.prems have rest: "\<forall>f \<in> set rest. \<exists>src. file_Open f = Inr src"
    "\<forall>f \<in> set rest. creatable w (file_Name f)" "distinct (map file_Name rest)"
    and fresh: "file_Name g \<notin> file_Name ` set rest" by simp_all
  from Cons.prems(4) have run: "extract_loop w rest ?st2 = Inr st'"
    by (simp only: extract_loop_Cons_created [OF srcg cr])
  show ?case
  proof (cases "f \<in> set rest")
    case True
    from Cons.IH [OF rest run True Cons.prems(6)] show ?thesis .
  next
    case False
    with Cons.prems(5) have "f = g" by simp
    with Cons.prems(6) srcg have "srcg = src" by simp
    from extract_loop_runs [OF rest(1,2), of ?st2] run fresh
    have "files st' (file_Name g) = files ?st2 (file_Name g)" by auto
    with \<open>f = g\<close> \<open>srcg = src\<close> show ?thesis by simp
  qed
qed


lemma main_reaches_unzip:
  assumes "owner w \<noteq> ''''" and "repo w \<noteq> ''''"
    and "list_loop w (ListArtifacts w) 1 [] (init_state w) = Inr (artifacts, st)"
    and "newest (sort_Slice w) artifacts = Some artifact"
    and "DownloadArtifact w (owner w) (repo w) (GetID artifact) = Inr url"
    and "http_Get w url = Inr body"
    and "CreateTemp w = Inr random"
    and "copy_result w (temp_Name w random) body = (bytes, None)"
  shows "main w = unzip w (temp_Name w random)
       \<lparr>stderr = [],
        requests = requests st @
              [DownloadArtifact_request (GITHUB_TOKEN w) (owner w) (repo w) (GetID artifact) True,
               Get_request url],
        files = (files0 w)(temp_Name w random \<mapsto> bytes),
        handles = [Body],
        deferred = [Defer_temp_Close_RemoveAll (temp_Name w random), Defer_Body_Close]\<rparr>"
proof -
  from list_loop_completes [OF assms(3)]
  have "stderr st = [] \<and> files st = files0 w \<and> handles st = [] \<and> deferred st = []"
    by (auto simp add: init_state_def)
  then show ?thesis
    by (simp add: main_after_listing [OF assms(1,2,3)] assms(4) get_archive_copied [OF assms(5,6,7,8)])
qed

text \<open>C10. Let every step up to the opening of the archive succeed, every entry open
  and every destination file be created, under names that differ from each other and
  from the temporary file's. If the copy of an entry \<open>f\<close> returns an error, the run
  still ends with exit status 0 and nothing on the error stream; the file of \<open>f\<close> holds
  the bytes that were copied before the error, and every entry of the archive has its
  file.\<close>

theorem copy_error_is_discarded:
  assumes "owner w \<noteq> ''''" and "repo w \<noteq> ''''"
    and "list_loop w (ListArtifacts w) 1 [] (init_state w) = Inr (artifacts, st)"
    and "newest (sort_Slice w) artifacts = Some artifact"
    and "DownloadArtifact w (owner w) (repo w) (GetID artifact) = Inr url"
    and "http_Get w url = Inr body"
    and "CreateTemp w = Inr random"
    and "copy_result w (temp_Name w random) body = (bytes, None)"
    and "zip_OpenReader w bytes = Inr zipfile"
    and "\<forall>g \<in> set zipfile. \<exists>src. file_Open g = Inr src"
    and "\<forall>g \<in> set zipfile. creatable w (file_Name g)"
    and "distinct (map file_Name zipfile)"
    and "temp_Name w random \<notin> file_Name ` set zipfile"
    and "f \<in> set zipfile" and "file_Open f = Inr src"
    and "snd (copy_result w (file_Name f) src) = Some err"
  shows "snd (main w) = Exit 0 \<and> stderr (fst (main w)) = [] \<and>
         files (fst (main w)) (file_Name f) = Some (fst (copy_result w (file_Name f) src)) \<and>
         (\<forall>g \<in> set zipfile. files (fst (main w)) (file_Name g) \<noteq> None)"
proof -
  let ?temp = "temp_Name w random"
  let ?st0 = "\<lparr>stderr = [],
        requests = requests st @
              [DownloadArtifact_request (GITHUB_TOKEN w) (owner w) (repo w) (GetID artifact) True,
               Get_request url],
        files = (files0 w)(?temp \<mapsto> bytes),
        handles = [Body],
        deferred = [Defer_temp_Close_RemoveAll ?temp, Defer_Body_Close]\<rparr>"
  let ?st1 = "go_defer Defer_zipfile_Close (open_handle ZipReader ?st0)"
  from extract_loop_runs [OF assms(10,11), of ?st1] obtain st' ds where
    run: "extract_loop w zipfile ?st1 = Inr st'"
    and err: "stderr st' = stderr ?st1"
    and ds: "deferred st' = ds @ deferred ?st1"
    and keep: "\<forall>s. files (fold run_deferred ds s) = files s \<and> stderr (fold run_deferred ds s) = stderr s"
    and made: "\<forall>g \<in> set zipfile. files st' (file_Name g) \<noteq> None"
    by blast
  have main: "main w = return_main st'"
    by (simp add: main_reaches_unzip [OF assms(1-8)] unzip_def assms(9) run)
  have fin: "files (fst (return_main st')) = (files st')(?temp := None)"
    "stderr (fst (return_main st')) = []"
    using keep err
    by (simp_all add: return_main_def ds go_defer_def open_handle_def Close_def os_RemoveAll_def)
  have content: "files st' (file_Name f) = Some (fst (copy_result w (file_Name f) src))"
    by (rule extract_loop_contents [OF assms(10,11,12) run assms(14,15)])
  from assms(13,14) have "file_Name f \<noteq> ?temp" by (metis imageI)
  moreover have "\<forall>g \<in> set zipfile. file_Name g \<noteq> ?temp" using assms(13) by (metis imageI)
  moreover have "snd (return_main st') = Exit 0" by (simp add: return_main_def)
  ultimately show ?thesis
    using content made by (simp add: main fin)
qed

theorem copy_error_is_discarded_witness:
  "snd (copy_result (sample_env\<lparr>zip_OpenReader := (\<lambda>bytes. Inr broken_zip)\<rparr>) ''a.txt''
          \<lparr>data = ''hel'', read_error = Some ''unexpected EOF''\<rparr>) = Some ''unexpected EOF'' \<and>
   snd (main (sample_env\<lparr>zip_OpenReader := (\<lambda>bytes. Inr broken_zip)\<rparr>)) = Exit 0 \<and>
   stderr (fst (main (sample_env\<lparr>zip_OpenReader := (\<lambda>bytes. Inr broken_zip)\<rparr>))) = [] \<and>
   files (fst (main (sample_env\<lparr>zip_OpenReader := (\<lambda>bytes. Inr broken_zip)\<rparr>))) ''a.txt'' = Some ''hel'' \<and>
   files (fst (main (sample_env\<lparr>zip_OpenReader := (\<lambda>bytes. Inr broken_zip)\<rparr>))) ''b/c.txt'' = Some ''world''"
  using copy_error_is_discarded [of "sample_env\<lparr>zip_OpenReader := (\<lambda>bytes. Inr broken_zip)\<rparr>"
     "[sample_artifact 11 100, sample_artifact 12 300, sample_artifact 13 200]"
     "(init_state sample_env)\<lparr>requests :=
             [ListArtifacts_request ''secret'' ''niku'' ''demo'' 100 1,
              ListArtifacts_request ''secret'' ''niku'' ''demo'' 100 2]\<rparr>"
     "sample_artifact 12 300" "''https://example.org/12''" "\<lparr>data = ''PK'', read_error = None\<rparr>"
     "''42''" "''PK''" broken_zip
     "\<lparr>file_Name = ''a.txt'', file_Open = Inr \<lparr>data = ''hel'', read_error = Some ''unexpected EOF''\<rparr>\<rparr>"
     "\<lparr>data = ''hel'', read_error = Some ''unexpected EOF''\<rparr>" "''unexpected EOF''"]
  by (simp add: sample_env_def init_state_def issue_def MAX_NUMBER_PER_PAGE_def
       newest_def insertionSort_def createdAt_After_def GetCreatedAt_def GetID_def sample_artifact_def
       fmt_d_def digits.simps copy_result_def broken_zip_def creatable_def dirname_def temp_Name_def
       main_def get_archive_def os_CreateTemp_def open_handle_def go_defer_def io_Copy_def Close_def
       unzip_def os_Create_def return_main_def os_RemoveAll_def)

lemma extract_loop_aborts:
  assumes "extract_loop w zipfile st = Inl (st', out)"
  shows "out = Exit 1 \<and>
         (\<forall>name. files st name \<noteq> None \<longrightarrow> files st' name \<noteq> None) \<and>
         set (handles st) \<subseteq> set (handles st') \<and>
         set (deferred st) \<subseteq> set (deferred st')"
  using assms
proof (induction zipfile arbitrary: st)
  case Nil
  then show ?case by simp
next
  case (Cons f rest)
  show ?case
  proof (cases "file_Open f")
    case (Inl err)
    with Cons.prems show ?thesis
      by (auto simp add: log_Fatalf_def os_Exit_def)
  next
    case (Inr src)
    let ?st1 = "go_defer (Defer_src_Close (file_Name f)) (open_handle (EntryReader (file_Name f)) st)"
    show ?thesis
    proof (cases "os_Create w (file_Name f) ?st1")
      case (Inl err)
      with Cons.prems Inr show ?thesis
        by (auto simp add: log_Fatalf_def os_Exit_def go_defer_def open_handle_def)
    next
      case st2: (Inr st2)
      let ?st3 = "fst (io_Copy w (file_Name f) src (go_defer (Defer_dst_Close (file_Name f)) st2))"
      from Cons.prems Inr st2 have "extract_loop w rest ?st3 = Inl (st', out)" by simp
      from Cons.IH [OF this] have
        ih: "out = Exit 1" "\<forall>name. files ?st3 name \<noteq> None \<longrightarrow> files st' name \<noteq> None"
          "set (handles ?st3) \<subseteq> set (handles st')" "set (deferred ?st3) \<subseteq> set (deferred st')"
        by simp_all
      from st2 have st3: "files ?st3 = (files st)(file_Name f \<mapsto> fst (copy_result w (file_Name f) src))"
        "handles ?st3 = File (file_Name f) # EntryReader (file_Name f) # handles st"
        "deferred ?st3 = Defer_dst_Close (file_Name f) # Defer_src_Close (file_Name f) # deferred st"
        by (auto simp add: os_Create_def io_Copy_def go_defer_def open_handle_def split: if_splits)
      from ih st3 show ?thesis by auto
    qed
  qed
qed

text \<open>C7, as the code has it. \<^verbatim>\<open>log.Fatalf\<close> ends the process without running the
  deferred calls. So whenever a run has created the temporary file and does not end with
  the return of \<^verbatim>\<open>main\<close>, it ends with exit status 1 while the temporary file is still
  on disk, the response body has not been closed, and the two deferred calls that would
  remove the one and close the other are still pending.\<close>

theorem fatal_exit_skips_cleanup:
  assumes "owner w \<noteq> ''''" and "repo w \<noteq> ''''"
    and "list_loop w (ListArtifacts w) 1 [] (init_state w) = Inr (artifacts, st)"
    and "newest (sort_Slice w) artifacts = Some artifact"
    and "DownloadArtifact w (owner w) (repo w) (GetID artifact) = Inr url"
    and "http_Get w url = Inr body"
    and "CreateTemp w = Inr random"
    and "snd (main w) \<noteq> Exit 0"
  shows "snd (main w) = Exit 1 \<and>
         files (fst (main w)) (temp_Name w random) \<noteq> None \<and>
         Body \<in> set (handles (fst (main w))) \<and>
         Defer_temp_Close_RemoveAll (temp_Name w random) \<in> set (deferred (fst (main w))) \<and>
         Defer_Body_Close \<in> set (deferred (fst (main w)))"
proof -
  let ?temp = "temp_Name w random"
  obtain bytes err where copy: "copy_result w ?temp body = (bytes, err)" by (cases "copy_result w ?temp body")
  from list_loop_completes [OF assms(3)]
  have st: "stderr st = [] \<and> files st = files0 w \<and> handles st = [] \<and> deferred st = []"
    by (auto simp add: init_state_def)
  show ?thesis
  proof (cases err)
    case (Some e)
    with copy st show ?thesis
      by (simp add: main_after_listing [OF assms(1,2,3)] assms(4,5,6,7) get_archive_def
          os_CreateTemp_def io_Copy_def issue_def go_defer_def open_handle_def log_Fatalf_def os_Exit_def)
  next
    case None
    let ?st0 = "\<lparr>stderr = [],
        requests = requests st @
              [DownloadArtifact_request (GITHUB_TOKEN w) (owner w) (repo w) (GetID artifact) True,
               Get_request url],
        files = (files0 w)(?temp \<mapsto> bytes),
        handles = [Body],
        deferred = [Defer_temp_Close_RemoveAll ?temp, Defer_Body_Close]\<rparr>"
    from copy None have main: "main w = unzip w ?temp ?st0"
      by (simp add: main_reaches_unzip [OF assms(1-7)])
    show ?thesis
    proof (cases "zip_OpenReader w bytes")
      case (Inl e)
      then show ?thesis
        by (simp add: main unzip_def log_Fatalf_def os_Exit_def)
    next
      case (Inr zipfile)
      let ?st1 = "go_defer Defer_zipfile_Close (open_handle ZipReader ?st0)"
      show ?thesis
      proof (cases "extract_loop w zipfile ?st1")
        case (Inl t)
        obtain st' out where t: "t = (st', out)" by (cases t)
        from extract_loop_aborts [OF Inl [unfolded t]]
        have "out = Exit 1" "files st' ?temp \<noteq> None" "Body \<in> set (handles st')"
          "Defer_temp_Close_RemoveAll ?temp \<in> set (deferred st')" "Defer_Body_Close \<in> set (deferred st')"
          by (auto simp add: go_defer_def open_handle_def)
        moreover have "main w = (st', out)"
          by (simp add: main unzip_def Inr Inl t)
        ultimately show ?thesis by simp
      next
        case st': (Inr st')
        have "main w = return_main st'"
          by (simp add: main unzip_def Inr st')
        with assms(8) show ?thesis by (simp add: return_main_def)
      qed
    qed
  qed
qed

text \<open>Two such runs: the downloaded bytes are not a zip archive; the reading of the body
  breaks off. In the third run nothing fails, \<^verbatim>\<open>main\<close> returns, and the file is removed
  and everything closed.\<close>

theorem fatal_exit_skips_cleanup_witness:
  "main (sample_env\<lparr>http_Get := (\<lambda>url. Inr \<lparr>data = ''410 Gone'', read_error = None\<rparr>)\<rparr>) =
     (\<lparr>stderr = [Log_Printf ''unable to open zip reader. detail: zip: not a valid zip file''],
       requests = [ListArtifacts_request ''secret'' ''niku'' ''demo'' 100 1,
                   ListArtifacts_request ''secret'' ''niku'' ''demo'' 100 2,
                   DownloadArtifact_request ''secret'' ''niku'' ''demo'' 12 True,
                   Get_request ''https://example.org/12''],
       files = [''/tmp/tmpfile-latest-pdf-42.zip'' \<mapsto> ''410 Gone''],
       handles = [Body],
       deferred = [Defer_temp_Close_RemoveAll ''/tmp/tmpfile-latest-pdf-42.zip'', Defer_Body_Close]\<rparr>,
      Exit 1) \<and>
   main (sample_env\<lparr>http_Get := (\<lambda>url. Inr \<lparr>data = ''P'', read_error = Some ''connection reset''\<rparr>)\<rparr>) =
     (\<lparr>stderr = [Log_Printf ''unable to copy response body to file. detail: connection reset''],
       requests = [ListArtifacts_request ''secret'' ''niku'' ''demo'' 100 1,
                   ListArtifacts_request ''secret'' ''niku'' ''demo'' 100 2,
                   DownloadArtifact_request ''secret'' ''niku'' ''demo'' 12 True,
                   Get_request ''https://example.org/12''],
       files = [''/tmp/tmpfile-latest-pdf-42.zip'' \<mapsto> ''P''],
       handles = [File ''/tmp/tmpfile-latest-pdf-42.zip'', Body],
       deferred = [Defer_temp_Close_RemoveAll ''/tmp/tmpfile-latest-pdf-42.zip'', Defer_Body_Close]\<rparr>,
      Exit 1) \<and>
   snd (main sample_env) = Exit 0 \<and>
   files (fst (main sample_env)) ''/tmp/tmpfile-latest-pdf-42.zip'' = None \<and>
   handles (fst (main sample_env)) = [] \<and>
   deferred (fst (main sample_env)) = []"
  using fatal_exit_skips_cleanup
    [of "sample_env\<lparr>http_Get := (\<lambda>url. Inr \<lparr>data = ''410 Gone'', read_error = None\<rparr>)\<rparr>"
     "[sample_artifact 11 100, sample_artifact 12 300, sample_artifact 13 200]"
     "(init_state sample_env)\<lparr>requests :=
             [ListArtifacts_request ''secret'' ''niku'' ''demo'' 100 1,
              ListArtifacts_request ''secret'' ''niku'' ''demo'' 100 2]\<rparr>"
     "sample_artifact 12 300" "''https://example.org/12''" "\<lparr>data = ''410 Gone'', read_error = None\<rparr>"
     "''42''"]
  by (simp add: main_def sample_env_def init_state_def issue_def MAX_NUMBER_PER_PAGE_def
       newest_def insertionSort_def createdAt_After_def GetCreatedAt_def GetID_def sample_artifact_def
       get_archive_def fmt_d_def digits.simps os_CreateTemp_def temp_Name_def open_handle_def
       go_defer_def io_Copy_def copy_result_def Close_def unzip_def log_Fatalf_def os_Exit_def
       sample_zip_def os_Create_def creatable_def dirname_def return_main_def os_RemoveAll_def)

end
